theory Spec2Isabelle
  imports Main "HOL-Library.Multiset" "HOL-Library.Char_ord" "HOL-Library.List_Lexorder" "HOL-Library.Product_Lexorder"
begin

section \<open>Errors and the git repository\<close>

text \<open>
  The repository is read through git2go. Its failures are \<open>*git.GitError\<close> values, of
  which the code inspects the \<open>Code\<close>; writing to an \<open>io.Writer\<close> fails with an error
  of the writer's own.
\<close>

datatype error = GitError int | IOError

definition ErrIterOver :: int where
  "ErrIterOver = - 31"

definition ErrNotFound :: int where
  "ErrNotFound = - 3"

text \<open>
  The test \<open>err, ok := err.(*git.GitError); ok && err.Code == git.ErrIterOver\<close> of both
  enumeration loops.
\<close>

fun is_IterOver :: "error \<Rightarrow> bool" where
  "is_IterOver (GitError c) = (c = ErrIterOver)"
| "is_IterOver IOError = False"

datatype object_type = ObjectCommit | ObjectTree | ObjectBlob | ObjectTag

text \<open>
  A tree entry has a name, a type and a file mode, and the id of an object. The object
  database is content addressed, so what an id stands for never changes and no tree
  contains itself: the entry carries, in place of the id, what the database answers for
  it (\<open>Missing\<close> with the error of a failed read).
\<close>

datatype tree_entry =
  TreeEntry (entry_Name: string) (entry_Type: object_type) (entry_Filemode: int) (entry_Id: object)
and object =
  Missing error
| TreeObject "tree_entry list"
| BlobObject string

text \<open>\<open>repo.LookupTree\<close> and \<open>repo.LookupBlob\<close>: an object of another kind is not found.\<close>

fun LookupTree :: "object \<Rightarrow> error + tree_entry list" where
  "LookupTree (TreeObject t) = Inr t"
| "LookupTree (Missing err) = Inl err"
| "LookupTree (BlobObject b) = Inl (GitError ErrNotFound)"

fun LookupBlob :: "object \<Rightarrow> error + string" where
  "LookupBlob (BlobObject b) = Inr b"
| "LookupBlob (Missing err) = Inl err"
| "LookupBlob (TreeObject t) = Inl (GitError ErrNotFound)"

text \<open>
  A commit as the code reads it: the committer's time (\<open>commit.Committer().When\<close>), the id
  of its tree as text (\<open>commit.TreeId().String()\<close>) and the result of \<open>commit.Tree()\<close>.
\<close>

record Commit =
  Committer_When :: int
  TreeId :: string
  Tree :: "error + tree_entry list"

text \<open>
  A repository as the code observes it. \<open>NewReferenceNameIterator\<close> fails or gives an
  iterator: the list of the results of its successive \<open>Next\<close> calls, a name or an
  error each; past the end of the list \<open>Next\<close> reports \<open>ErrIterOver\<close>.
  \<open>References_Lookup\<close> is \<open>repo.References.Lookup\<close>, and a reference is given by the
  result of peeling it to a commit (\<open>ref.Peel(git.ObjectCommit)\<close> then \<open>AsCommit\<close>).
\<close>

record Reference =
  Peel_Commit :: "error + Commit"

record Repository =
  NewReferenceNameIterator :: "error + (error + string) list"
  References_Lookup :: "string \<Rightarrow> error + Reference"

record Module =
  repo :: Repository


section \<open>The version library\<close>

text \<open>
  Versions come from the library go-version, which is not part of the repository. The
  code uses four of its operations, taken here as a parameter: \<open>NewVersion\<close> parses
  (\<open>None\<close> for a malformed string), \<open>LessThan\<close> and \<open>Equal\<close> compare by precedence, and
  \<open>String\<close> renders a version canonically.
\<close>

record 'v version_lib =
  NewVersion :: "string \<Rightarrow> 'v option"
  LessThan :: "'v \<Rightarrow> 'v \<Rightarrow> bool"
  Equal :: "'v \<Rightarrow> 'v \<Rightarrow> bool"
  String :: "'v \<Rightarrow> string"

section \<open>module.go\<close>

definition HasPrefix :: "string \<Rightarrow> string \<Rightarrow> bool" where
  "HasPrefix s p = (take (length p) s = p)"

text \<open>
  \<open>sort.Slice\<close> belongs to Go's standard library and is not stable. It is represented by
  the insertion sort that the library itself runs on short slices: each element in turn
  moves left while \<open>lessf\<close> puts it before its left neighbour. \<open>insert_left\<close> works on the
  reversed prefix.
\<close>

fun insert_left :: "('a \<Rightarrow> 'a \<Rightarrow> bool) \<Rightarrow> 'a \<Rightarrow> 'a list \<Rightarrow> 'a list" where
  "insert_left lessf x [] = [x]"
| "insert_left lessf x (y # ys) =
     (if lessf x y then y # insert_left lessf x ys else x # y # ys)"

definition sort_Slice :: "('a \<Rightarrow> 'a \<Rightarrow> bool) \<Rightarrow> 'a list \<Rightarrow> 'a list" where
  "sort_Slice lessf xs = rev (foldl (\<lambda>acc x. insert_left lessf x acc) [] xs)"

text \<open>The loop of \<open>AllVersions\<close> over the results of \<open>it.Next()\<close>, \<open>ret\<close> being the slice so far.\<close>

fun AllVersions_loop :: "'v version_lib \<Rightarrow> (error + string) list \<Rightarrow> 'v list \<Rightarrow> error + 'v list" where
  "AllVersions_loop L [] ret = Inr ret"
| "AllVersions_loop L (Inl err # it) ret =
     (if is_IterOver err then Inr ret else Inl err)"
| "AllVersions_loop L (Inr name # it) ret =
     (if HasPrefix name ''refs/tags/v'' then
        (let versionStr = drop 11 name in
         case NewVersion L versionStr of
           None \<Rightarrow> AllVersions_loop L it ret
         | Some v \<Rightarrow> AllVersions_loop L it (ret @ [v]))
      else AllVersions_loop L it ret)"

definition AllVersions :: "'v version_lib \<Rightarrow> Module \<Rightarrow> error + 'v list" where
  "AllVersions L m =
     (case NewReferenceNameIterator (repo m) of
        Inl err \<Rightarrow> Inl err
      | Inr it \<Rightarrow>
         (case AllVersions_loop L it [] of
            Inl err \<Rightarrow> Inl err
          | Inr ret \<Rightarrow> Inr (sort_Slice (\<lambda>vi vj. LessThan L vj vi) ret)))"

definition LatestVersion :: "'v version_lib \<Rightarrow> Module \<Rightarrow> error + 'v option" where
  "LatestVersion L m =
     (case AllVersions L m of
        Inl err \<Rightarrow> Inl err
      | Inr versions \<Rightarrow>
         (if length versions = 0 then Inr None else Inr (Some (versions ! 0))))"

fun HasVersion_loop :: "'v version_lib \<Rightarrow> (error + string) list \<Rightarrow> 'v \<Rightarrow> error + bool" where
  "HasVersion_loop L [] v = Inr False"
| "HasVersion_loop L (Inl err # it) v =
     (if is_IterOver err then Inr False else Inl err)"
| "HasVersion_loop L (Inr name # it) v =
     (if HasPrefix name ''refs/tags/v'' then
        (let versionStr = drop 11 name in
         case NewVersion L versionStr of
           None \<Rightarrow> HasVersion_loop L it v
         | Some gotV \<Rightarrow> if Equal L gotV v then Inr True else HasVersion_loop L it v)
      else HasVersion_loop L it v)"

definition HasVersion :: "'v version_lib \<Rightarrow> Module \<Rightarrow> 'v \<Rightarrow> error + bool" where
  "HasVersion L m v =
     (case NewReferenceNameIterator (repo m) of
        Inl err \<Rightarrow> Inl err
      | Inr it \<Rightarrow> HasVersion_loop L it v)"

definition getVersionCommit :: "'v version_lib \<Rightarrow> Module \<Rightarrow> 'v \<Rightarrow> error + Commit" where
  "getVersionCommit L m v =
     (let refName = ''refs/tags/v'' @ String L v in
      case References_Lookup (repo m) refName of
        Inl err \<Rightarrow> Inl err
      | Inr ref \<Rightarrow> Peel_Commit ref)"


section \<open>The tar archive\<close>

text \<open>
  The fields of \<open>tar.Header\<close> that the code sets; times are kept as the commit gives them.
  \<open>TypeDir\<close> and \<open>TypeReg\<close> are the flag bytes of \<open>archive/tar\<close>.
\<close>

record Header =
  Name :: string
  Mode :: int
  Typeflag :: char
  Size :: int
  ChangeTime :: int
  AccessTime :: int
  ModTime :: int

definition TypeReg :: char where
  "TypeReg = CHR ''0''"

definition TypeDir :: char where
  "TypeDir = CHR ''5''"

text \<open>
  What a \<open>tar.Writer\<close> hands to the \<open>io.Writer\<close> below it: a header, the bytes of a file,
  or the trailer that \<open>Close\<close> writes. The writer below accepts \<open>room\<close> more items
  (\<open>None\<close>: any number) and fails from then on; a failed operation writes nothing.
\<close>

datatype tar_item = Hdr Header | Data string | Trailer

record Writer =
  written :: "tar_item list"
  room :: "nat option"

definition put :: "Writer \<Rightarrow> tar_item \<Rightarrow> error option \<times> Writer" where
  "put tw x =
     (case room tw of
        None \<Rightarrow> (None, tw\<lparr>written := written tw @ [x]\<rparr>)
      | Some 0 \<Rightarrow> (Some IOError, tw)
      | Some (Suc n) \<Rightarrow> (None, tw\<lparr>written := written tw @ [x], room := Some n\<rparr>))"

definition WriteHeader :: "Writer \<Rightarrow> Header \<Rightarrow> error option \<times> Writer" where
  "WriteHeader tw hdr = put tw (Hdr hdr)"

definition Write :: "Writer \<Rightarrow> string \<Rightarrow> error option \<times> Writer" where
  "Write tw b = put tw (Data b)"

definition Close :: "Writer \<Rightarrow> error option \<times> Writer" where
  "Close tw = put tw Trailer"

text \<open>
  \<open>writeGitTreeTar\<close>: the loop over the entries of \<open>tree\<close> in index order, and the
  recursion into subtrees. The result of \<open>tw.WriteHeader\<close> is dropped, as in the code.
\<close>

function writeGitTreeTar :: "tree_entry list \<Rightarrow> string \<Rightarrow> int \<Rightarrow> Writer \<Rightarrow> error option \<times> Writer" where
  "writeGitTreeTar [] prefix modTime tw = (None, tw)"
| "writeGitTreeTar (entry # rest) prefix modTime tw =
     (case entry_Type entry of
        ObjectTree \<Rightarrow>
          (let newPrefix = prefix @ entry_Name entry @ ''/'';
               tw1 = snd (WriteHeader tw
                 \<lparr>Name = newPrefix, Mode = 493, Typeflag = TypeDir, Size = 0,
                  ChangeTime = modTime, AccessTime = modTime, ModTime = modTime\<rparr>)
           in case LookupTree (entry_Id entry) of
                Inl err \<Rightarrow> writeGitTreeTar rest prefix modTime tw1
              | Inr newTree \<Rightarrow>
                 (case writeGitTreeTar newTree newPrefix modTime tw1 of
                    (Some err, tw2) \<Rightarrow> (Some err, tw2)
                  | (None, tw2) \<Rightarrow> writeGitTreeTar rest prefix modTime tw2))
      | ObjectBlob \<Rightarrow>
          (case LookupBlob (entry_Id entry) of
             Inl err \<Rightarrow> (Some err, tw)
           | Inr blob \<Rightarrow>
              (let tw1 = snd (WriteHeader tw
                 \<lparr>Name = prefix @ entry_Name entry, Mode = entry_Filemode entry,
                  Typeflag = TypeReg, Size = int (length blob),
                  ChangeTime = modTime, AccessTime = modTime, ModTime = modTime\<rparr>)
               in case Write tw1 blob of
                    (Some err, tw2) \<Rightarrow> (Some err, tw2)
                  | (None, tw2) \<Rightarrow> writeGitTreeTar rest prefix modTime tw2))
      | _ \<Rightarrow> writeGitTreeTar rest prefix modTime tw)"
  by pat_completeness auto
termination writeGitTreeTar
proof (relation "measure (\<lambda>(tree, prefix, modTime, tw). size_list size tree)")
  fix entry :: tree_entry and rest :: "tree_entry list" and newTree :: "tree_entry list"
  fix prefix :: string and modTime :: int and tw :: Writer and newPrefix :: string and tw1 :: Writer
  assume "LookupTree (entry_Id entry) = Inr newTree"
  then have "size_list size newTree < size entry"
    by (cases entry; cases "entry_Id entry") auto
  then show "((newTree, newPrefix, modTime, tw1), entry # rest, prefix, modTime, tw)
      \<in> measure (\<lambda>(tree, prefix, modTime, tw). size_list size tree)"
    by simp
qed auto

text \<open>
  \<open>WriteVersionTar\<close>: \<open>tar.NewWriter(w)\<close> writes through to \<open>w\<close>, and the deferred
  \<open>tw.Close()\<close> runs on every return.
\<close>

definition WriteVersionTar :: "'v version_lib \<Rightarrow> Module \<Rightarrow> 'v \<Rightarrow> Writer \<Rightarrow> error option \<times> Writer" where
  "WriteVersionTar L m v w =
     (let tw = w in
      case getVersionCommit L m v of
        Inl err \<Rightarrow> (Some err, snd (Close tw))
      | Inr commit \<Rightarrow>
         (let commitTime = Committer_When commit in
          case Tree commit of
            Inl err \<Rightarrow> (Some err, snd (Close tw))
          | Inr rootTree \<Rightarrow>
             (case writeGitTreeTar rootTree [] commitTime tw of
                (r, tw') \<Rightarrow> (r, snd (Close tw')))))"

section \<open>handler.go\<close>




record apiMeta =
  Limit :: string
  CurrentOffset :: string
  NextOffset :: string
  PrevOffset :: string

















section \<open>A version library\<close>

text \<open>
  Modelled from the spec: the version library (go-version) is used by the code and is not
  part of the repository. The spec describes a version as numeric dot-separated
  components with an optional prerelease suffix, compared by Semantic Versioning
  precedence, under which differently formatted strings can be equal (with or without a
  trailing zero component). \<open>semver\<close> is one library of that description; it instantiates
  the parameter \<open>L\<close> at concrete inputs.
\<close>

record Version =
  segments :: "nat list"
  prerelease :: string

fun Split :: "string \<Rightarrow> char \<Rightarrow> string list" where
  "Split [] sep = [[]]"
| "Split (c # cs) sep =
     (if c = sep then [] # Split cs sep
      else (case Split cs sep of
              [] \<Rightarrow> [[c]]
            | w # ws \<Rightarrow> (c # w) # ws))"

definition is_digit :: "char \<Rightarrow> bool" where
  "is_digit c = (c \<in> set ''0123456789'')"

definition is_ident_char :: "char \<Rightarrow> bool" where
  "is_ident_char c =
     (c \<in> set ''0123456789abcdefghijklmnopqrstuvwxyzABCDEFGHIJKLMNOPQRSTUVWXYZ-'')"

definition is_number :: "string \<Rightarrow> bool" where
  "is_number s = (s \<noteq> [] \<and> list_all is_digit s)"

definition parse_nat :: "string \<Rightarrow> nat" where
  "parse_nat s = foldl (\<lambda>n c. 10 * n + (of_char c - 48)) 0 s"

fun show_nat :: "nat \<Rightarrow> string" where
  "show_nat n =
     (if n < 10 then [''0123456789'' ! n]
      else show_nat (n div 10) @ [''0123456789'' ! (n mod 10)])"

declare show_nat.simps [simp del]

fun Join :: "string list \<Rightarrow> string \<Rightarrow> string" where
  "Join [] sep = []"
| "Join [w] sep = w"
| "Join (w # ws) sep = w @ sep @ Join ws sep"

definition semver_NewVersion :: "string \<Rightarrow> Version option" where
  "semver_NewVersion s =
     (let num = takeWhile (\<lambda>c. c \<noteq> CHR ''-'') s;
          suffix = dropWhile (\<lambda>c. c \<noteq> CHR ''-'') s;
          parts = Split num CHR ''.'';
          pre = tl suffix
      in if list_all is_number parts
            \<and> (suffix = [] \<or> list_all (\<lambda>i. i \<noteq> [] \<and> list_all is_ident_char i) (Split pre CHR ''.''))
         then Some \<lparr>segments = map parse_nat parts @ replicate (3 - length parts) 0,
                    prerelease = pre\<rparr>
         else None)"

definition semver_String :: "Version \<Rightarrow> string" where
  "semver_String v =
     Join (map show_nat (segments v)) ''.''
       @ (if prerelease v = [] then [] else ''-'' @ prerelease v)"

text \<open>
  Precedence: the components without their trailing zeros, then a release above every
  prerelease, then the prerelease identifiers one by one, a numeric one by its value and
  below any other, which go by their text.
\<close>

definition ident_key :: "string \<Rightarrow> nat \<times> nat \<times> string" where
  "ident_key i = (if is_number i then (0, parse_nat i, []) else (1, 0, i))"

definition precedence :: "Version \<Rightarrow> nat list \<times> nat \<times> (nat \<times> nat \<times> string) list" where
  "precedence v =
     (rev (dropWhile (\<lambda>n. n = 0) (rev (segments v))),
      (if prerelease v = [] then 1 else 0),
      map ident_key (Split (prerelease v) CHR ''.''))"

definition semver :: "Version version_lib" where
  "semver =
     \<lparr>NewVersion = semver_NewVersion,
      LessThan = (\<lambda>a b. precedence a < precedence b),
      Equal = (\<lambda>a b. precedence a = precedence b),
      String = semver_String\<rparr>"

section \<open>What an enumeration yields\<close>

text \<open>
  The names an iterator yields before it stops: \<open>Next\<close> stops the loops at its first
  error, which is either the end of the iteration or a failure.
\<close>

fun enumerated :: "(error + string) list \<Rightarrow> string list" where
  "enumerated [] = []"
| "enumerated (Inl err # it) = []"
| "enumerated (Inr name # it) = name # enumerated it"

fun iteration_failure :: "(error + string) list \<Rightarrow> error option" where
  "iteration_failure [] = None"
| "iteration_failure (Inl err # it) = (if is_IterOver err then None else Some err)"
| "iteration_failure (Inr name # it) = iteration_failure it"

text \<open>The version of a reference name: that of a version tag whose text parses.\<close>

definition tag_version :: "'v version_lib \<Rightarrow> string \<Rightarrow> 'v option" where
  "tag_version L name =
     (if HasPrefix name ''refs/tags/v'' then NewVersion L (drop 11 name) else None)"

definition tag_versions :: "'v version_lib \<Rightarrow> string list \<Rightarrow> 'v list" where
  "tag_versions L names = List.map_filter (tag_version L) names"



text \<open>
  A snapshot without its submodule links: the entries of type commit are removed from the
  tree and from every subtree that the walk reads.
\<close>

function without_links :: "tree_entry list \<Rightarrow> tree_entry list" where
  "without_links [] = []"
| "without_links (entry # rest) =
     (case entry_Type entry of
        ObjectCommit \<Rightarrow> without_links rest
      | ObjectTree \<Rightarrow>
         (case LookupTree (entry_Id entry) of
            Inl err \<Rightarrow> entry # without_links rest
          | Inr newTree \<Rightarrow>
              TreeEntry (entry_Name entry) ObjectTree (entry_Filemode entry)
                (TreeObject (without_links newTree)) # without_links rest)
      | _ \<Rightarrow> entry # without_links rest)"
  by pat_completeness auto
termination
proof (relation "measure (size_list size)")
  fix entry :: tree_entry and rest :: "tree_entry list" and newTree :: "tree_entry list"
  assume "LookupTree (entry_Id entry) = Inr newTree"
  then have "size_list size newTree < size entry"
    by (cases entry; cases "entry_Id entry") auto
  then show "(newTree, entry # rest) \<in> measure (size_list size)"
    by simp
qed auto





section \<open>Example stores\<close>

text \<open>
  A module \<open>acme/widget/aws\<close> with the tags \<open>v1.0.0\<close> and \<open>v1.2.0\<close>, a branch and a tag
  that is no version. Its snapshot holds a file, a directory with a submodule link and an
  executable file, and a submodule link.
\<close>

definition widget_tree :: "tree_entry list" where
  "widget_tree =
     [TreeEntry ''main.tf'' ObjectBlob 33188 (BlobObject ''# widget''),
      TreeEntry ''bin'' ObjectTree 16384
        (TreeObject [TreeEntry ''deps'' ObjectCommit 57344 (Missing (GitError ErrNotFound)),
                     TreeEntry ''run.sh'' ObjectBlob 33261 (BlobObject ''exit'')]),
      TreeEntry ''vendor'' ObjectCommit 57344 (Missing (GitError ErrNotFound))]"

definition widget_commit :: Commit where
  "widget_commit = \<lparr>Committer_When = 1500000000, TreeId = ''4b825dc6'', Tree = Inr widget_tree\<rparr>"

definition widget_repo :: Repository where
  "widget_repo =
     \<lparr>NewReferenceNameIterator =
        Inr [Inr ''refs/heads/master'', Inr ''refs/tags/v1.0.0'', Inr ''refs/tags/v1.2.0'',
             Inr ''refs/tags/vnext''],
      References_Lookup =
        (\<lambda>refName.
           if refName = ''refs/tags/v1.0.0'' then Inr \<lparr>Peel_Commit = Inr widget_commit\<rparr>
           else if refName = ''refs/tags/v1.2.0''
             then Inr \<lparr>Peel_Commit = Inr (widget_commit\<lparr>TreeId := ''9f0c2a17''\<rparr>)\<rparr>
           else Inl (GitError ErrNotFound))\<rparr>"




text \<open>A store whose enumeration starts and then fails at the second \<open>Next\<close>.\<close>

definition broken_repo :: Repository where
  "broken_repo =
     \<lparr>NewReferenceNameIterator = Inr [Inr ''refs/heads/master'', Inl (GitError (- 1))],
      References_Lookup = (\<lambda>refName. Inl (GitError ErrNotFound))\<rparr>"

text \<open>A store with a branch and a tag that is no version.\<close>

definition bare_repo :: Repository where
  "bare_repo =
     \<lparr>NewReferenceNameIterator = Inr [Inr ''refs/heads/master'', Inr ''refs/tags/vnext''],
      References_Lookup = (\<lambda>refName. Inl (GitError ErrNotFound))\<rparr>"

text \<open>A version \<open>v2.0.0\<close> whose snapshot has a directory that cannot be read, before a file.\<close>

definition holed_tree :: "tree_entry list" where
  "holed_tree =
     [TreeEntry ''lib'' ObjectTree 16384 (Missing (GitError (- 1))),
      TreeEntry ''main.tf'' ObjectBlob 33188 (BlobObject ''# widget'')]"

definition holed_repo :: Repository where
  "holed_repo =
     \<lparr>NewReferenceNameIterator = Inr [Inr ''refs/tags/v2.0.0''],
      References_Lookup =
        (\<lambda>refName.
           if refName = ''refs/tags/v2.0.0''
           then Inr \<lparr>Peel_Commit = Inr \<lparr>Committer_When = 1500000000, TreeId = ''77aa01bc'',
                                         Tree = Inr holed_tree\<rparr>\<rparr>
           else Inl (GitError ErrNotFound))\<rparr>"

definition v_1_0_0 :: Version where
  "v_1_0_0 = \<lparr>segments = [1, 0, 0], prerelease = []\<rparr>"

definition v_1_2_0 :: Version where
  "v_1_2_0 = \<lparr>segments = [1, 2, 0], prerelease = []\<rparr>"

definition v_2_0_0 :: Version where
  "v_2_0_0 = \<lparr>segments = [2, 0, 0], prerelease = []\<rparr>"

definition v_3_0_0 :: Version where
  "v_3_0_0 = \<lparr>segments = [3, 0, 0], prerelease = []\<rparr>"

text \<open>A store whose only tag is \<open>v1.0\<close>.\<close>

definition tagged_1_0 :: Repository where
  "tagged_1_0 =
     \<lparr>NewReferenceNameIterator = Inr [Inr ''refs/tags/v1.0''],
      References_Lookup = (\<lambda>refName. Inl (GitError ErrNotFound))\<rparr>"

section \<open>Evaluation at the example stores\<close>

lemmas semver_eval = semver_def semver_NewVersion_def semver_String_def is_number_def
  is_digit_def is_ident_char_def parse_nat_def precedence_def ident_key_def HasPrefix_def
  v_1_0_0_def v_1_2_0_def v_2_0_0_def v_3_0_0_def show_nat.simps

lemmas tar_eval = WriteVersionTar_def getVersionCommit_def WriteHeader_def Write_def Close_def
  put_def TypeDir_def TypeReg_def Let_def


lemma AllVersions_widget: "AllVersions semver \<lparr>repo = widget_repo\<rparr> = Inr [v_1_2_0, v_1_0_0]"
  by (simp add: AllVersions_def widget_repo_def sort_Slice_def semver_eval)













section \<open>Enumerating the versions\<close>

lemma AllVersions_loop_eq:
  "AllVersions_loop L it ret =
     (case iteration_failure it of
        Some err \<Rightarrow> Inl err
      | None \<Rightarrow> Inr (ret @ tag_versions L (enumerated it)))"
proof (induction L it ret rule: AllVersions_loop.induct)
  case (1 L ret)
  show ?case by (simp add: tag_versions_def)
next
  case (2 L err it ret)
  show ?case by (simp add: tag_versions_def)
next
  case (3 L name it ret)
  then show ?case
    by (simp add: tag_versions_def tag_version_def Let_def
        split: option.splits)
qed

lemma AllVersions_eq:
  "AllVersions L m =
     (case NewReferenceNameIterator (repo m) of
        Inl err \<Rightarrow> Inl err
      | Inr it \<Rightarrow>
         (case iteration_failure it of
            Some err \<Rightarrow> Inl err
          | None \<Rightarrow> Inr (sort_Slice (\<lambda>vi vj. LessThan L vj vi) (tag_versions L (enumerated it)))))"
  by (simp add: AllVersions_def AllVersions_loop_eq split: sum.splits option.splits)

lemma HasVersion_loop_iff:
  "HasVersion_loop L it v = Inr True \<longleftrightarrow>
     (\<exists>name \<in> set (enumerated it). \<exists>g. tag_version L name = Some g \<and> Equal L g v)"
proof (induction L it v rule: HasVersion_loop.induct)
  case (1 L v)
  show ?case by simp
next
  case (2 L err it v)
  show ?case by simp
next
  case (3 L name it v)
  show ?case
  proof (cases "tag_version L name")
    case None
    then have "HasVersion_loop L (Inr name # it) v = HasVersion_loop L it v"
      by (simp add: tag_version_def split: if_splits)
    with None 3 show ?thesis
      by (simp add: tag_version_def split: if_splits)
  next
    case (Some g)
    then have p: "HasPrefix name ''refs/tags/v''" and n: "NewVersion L (drop 11 name) = Some g"
      by (simp_all add: tag_version_def split: if_splits)
    show ?thesis
    proof (cases "Equal L g v")
      case True
      with p n Some show ?thesis by simp
    next
      case False
      with p n have "HasVersion_loop L (Inr name # it) v = HasVersion_loop L it v"
        by simp
      with False Some 3(2)[OF p refl n] show ?thesis by simp
    qed
  qed
qed








lemma sort_Slice_Nil: "sort_Slice lessf [] = []"
  by (simp add: sort_Slice_def)




text \<open>
  C5. \<open>LatestVersion\<close> returns the first element of the sequence that \<open>AllVersions\<close>
  returns, it is absent with no error exactly when that sequence is empty, and it passes
  on the error of \<open>AllVersions\<close>.
\<close>

theorem LatestVersion_first:
  "(\<forall>vs. AllVersions L m = Inr vs \<longrightarrow>
       LatestVersion L m = Inr (case vs of [] \<Rightarrow> None | v # rest \<Rightarrow> Some v))
   \<and> (LatestVersion L m = Inr None \<longleftrightarrow> AllVersions L m = Inr [])
   \<and> (\<forall>err. AllVersions L m = Inl err \<longrightarrow> LatestVersion L m = Inl err)"
proof (cases "AllVersions L m")
  case (Inl err)
  then show ?thesis by (simp add: LatestVersion_def)
next
  case (Inr vs)
  then show ?thesis by (cases vs) (simp_all add: LatestVersion_def)
qed

text \<open>
  C5, witness: the latest version of the example module is \<open>1.2.0\<close>.
\<close>

theorem LatestVersion_first_witness:
  "AllVersions semver \<lparr>repo = widget_repo\<rparr> = Inr [v_1_2_0, v_1_0_0]
   \<and> LatestVersion semver \<lparr>repo = widget_repo\<rparr> = Inr (Some v_1_2_0)"
proof -
  have "AllVersions semver \<lparr>repo = widget_repo\<rparr> = Inr [v_1_2_0, v_1_0_0] \<longrightarrow>
      LatestVersion semver \<lparr>repo = widget_repo\<rparr>
        = Inr (case [v_1_2_0, v_1_0_0] of [] \<Rightarrow> None | v # rest \<Rightarrow> Some v)"
    using LatestVersion_first[of semver "\<lparr>repo = widget_repo\<rparr>"] by (elim conjE allE)
  with AllVersions_widget show ?thesis by simp
qed

text \<open>
  C6. \<open>HasVersion\<close> answers true exactly when the enumeration starts and yields, before
  it stops, a reference name with the prefix \<open>refs/tags/v\<close> whose remainder parses to a
  version that is \<open>Equal\<close> to \<open>v\<close>: the library's equality decides, not the text.
\<close>

theorem HasVersion_precedence_equal:
  "HasVersion L m v = Inr True \<longleftrightarrow>
     (\<exists>it. NewReferenceNameIterator (repo m) = Inr it
        \<and> (\<exists>name \<in> set (enumerated it). \<exists>gotV.
              HasPrefix name ''refs/tags/v'' \<and> NewVersion L (drop 11 name) = Some gotV
              \<and> Equal L gotV v))"
proof (cases "NewReferenceNameIterator (repo m)")
  case (Inl err)
  then show ?thesis by (simp add: HasVersion_def)
next
  case (Inr it)
  have tv: "\<And>name gotV. tag_version L name = Some gotV \<longleftrightarrow>
      HasPrefix name ''refs/tags/v'' \<and> NewVersion L (drop 11 name) = Some gotV"
    by (simp add: tag_version_def)
  from Inr have "HasVersion L m v = HasVersion_loop L it v"
    by (simp add: HasVersion_def)
  with Inr show ?thesis
    by (simp add: HasVersion_loop_iff tv)
qed

text \<open>
  C6, witness: the store tagged \<open>v1.0\<close> has the version that \<open>1.0.0\<close> parses to.
\<close>

theorem HasVersion_precedence_equal_witness:
  "semver_NewVersion ''1.0.0'' = Some v_1_0_0
   \<and> enumerated [Inr ''refs/tags/v1.0''] = [''refs/tags/v1.0'']
   \<and> HasVersion semver \<lparr>repo = tagged_1_0\<rparr> v_1_0_0 = Inr True"
proof -
  have i: "NewReferenceNameIterator (repo \<lparr>repo = tagged_1_0\<rparr>) = Inr [Inr ''refs/tags/v1.0'']"
    by (simp add: tagged_1_0_def)
  have n: "''refs/tags/v1.0'' \<in> set (enumerated [Inr ''refs/tags/v1.0''])"
    by simp
  have p: "HasPrefix ''refs/tags/v1.0'' ''refs/tags/v''"
    by (simp add: HasPrefix_def)
  have g: "NewVersion semver (drop 11 ''refs/tags/v1.0'') = Some v_1_0_0"
    by (simp add: semver_eval)
  have e: "Equal semver v_1_0_0 v_1_0_0"
    by (simp add: semver_def)
  from n p g e have "\<exists>name \<in> set (enumerated [Inr ''refs/tags/v1.0'']). \<exists>gotV.
      HasPrefix name ''refs/tags/v'' \<and> NewVersion semver (drop 11 name) = Some gotV
      \<and> Equal semver gotV v_1_0_0"
    by (intro bexI exI conjI)
  with i have "\<exists>it. NewReferenceNameIterator (repo \<lparr>repo = tagged_1_0\<rparr>) = Inr it
        \<and> (\<exists>name \<in> set (enumerated it). \<exists>gotV.
              HasPrefix name ''refs/tags/v'' \<and> NewVersion semver (drop 11 name) = Some gotV
              \<and> Equal semver gotV v_1_0_0)"
    by (intro exI conjI)
  then have h: "HasVersion semver \<lparr>repo = tagged_1_0\<rparr> v_1_0_0 = Inr True"
    by (rule HasVersion_precedence_equal[THEN iffD2])
  have "semver_NewVersion ''1.0.0'' = Some v_1_0_0" by (simp add: semver_eval)
  with h show ?thesis by simp
qed

text \<open>
  C9, as the claim states it, fails: the enumeration of this store starts, its second
  \<open>Next\<close> fails, and \<open>AllVersions\<close> returns that error.
\<close>

theorem AllVersions_failure_counterexample:
  "NewReferenceNameIterator broken_repo = Inr [Inr ''refs/heads/master'', Inl (GitError (- 1))]
   \<and> AllVersions semver \<lparr>repo = broken_repo\<rparr> = Inl (GitError (- 1))"
  by (simp add: AllVersions_def broken_repo_def ErrIterOver_def HasPrefix_def)

text \<open>
  C9 (amended). \<open>AllVersions\<close> returns an error exactly when the reference name iterator
  cannot be created, or when a \<open>Next\<close> call fails with an error other than the end of the
  iteration before the iteration ends; the error is that one. When the enumeration neither
  fails to start nor fails on the way and yields no version tag that parses, the result
  is the empty sequence with no error.
\<close>

theorem AllVersions_failure:
  "(AllVersions L m = Inl err \<longleftrightarrow>
      NewReferenceNameIterator (repo m) = Inl err
      \<or> (\<exists>it. NewReferenceNameIterator (repo m) = Inr it \<and> iteration_failure it = Some err))
   \<and> (\<forall>it. NewReferenceNameIterator (repo m) = Inr it \<and> iteration_failure it = None
          \<and> tag_versions L (enumerated it) = []
        \<longrightarrow> AllVersions L m = Inr [])"
proof (cases "NewReferenceNameIterator (repo m)")
  case (Inl e)
  then show ?thesis by (simp add: AllVersions_eq)
next
  case (Inr it)
  then show ?thesis
    by (cases "iteration_failure it") (simp_all add: AllVersions_eq sort_Slice_Nil)
qed

text \<open>
  C9, witness: a store with a branch and a tag that is no version has no versions.
\<close>

theorem AllVersions_failure_witness:
  "NewReferenceNameIterator bare_repo = Inr [Inr ''refs/heads/master'', Inr ''refs/tags/vnext'']
   \<and> AllVersions semver \<lparr>repo = bare_repo\<rparr> = Inr []"
proof -
  let ?it = "[Inr ''refs/heads/master'', Inr ''refs/tags/vnext''] :: (error + string) list"
  have i: "NewReferenceNameIterator (repo \<lparr>repo = bare_repo\<rparr>) = Inr ?it"
    by (simp add: bare_repo_def)
  have f: "iteration_failure ?it = None"
    by simp
  have t: "tag_versions semver (enumerated ?it) = []"
    by (simp add: tag_versions_def tag_version_def semver_eval)
  have "NewReferenceNameIterator (repo \<lparr>repo = bare_repo\<rparr>) = Inr ?it
      \<and> iteration_failure ?it = None \<and> tag_versions semver (enumerated ?it) = []
      \<longrightarrow> AllVersions semver \<lparr>repo = bare_repo\<rparr> = Inr []"
    using AllVersions_failure[of semver "\<lparr>repo = bare_repo\<rparr>" IOError]
    by (elim conjE allE)
  with i f t have "AllVersions semver \<lparr>repo = bare_repo\<rparr> = Inr []"
    by (elim impE) (intro conjI)
  moreover have "NewReferenceNameIterator bare_repo = Inr ?it"
    by (simp add: bare_repo_def)
  ultimately show ?thesis by (intro conjI)
qed

section \<open>Writing the archive\<close>










text \<open>
  C2: the code does not do what the claim says. At a directory entry whose tree cannot be
  read, \<open>writeGitTreeTar\<close> has written the header of the directory, skips the entry and
  goes on with the next one; \<open>WriteVersionTar\<close> returns no error for the version
  \<open>v2.0.0\<close> of this store, whose directory \<open>lib\<close> cannot be read.
\<close>

theorem WriteVersionTar_unreadable_directory:
  "WriteVersionTar semver \<lparr>repo = holed_repo\<rparr> v_2_0_0 \<lparr>written = [], room = None\<rparr> =
   (None, \<lparr>written =
      [Hdr \<lparr>Name = ''lib/'', Mode = 493, Typeflag = CHR ''5'', Size = 0,
            ChangeTime = 1500000000, AccessTime = 1500000000, ModTime = 1500000000\<rparr>,
       Hdr \<lparr>Name = ''main.tf'', Mode = 33188, Typeflag = CHR ''0'', Size = 8,
            ChangeTime = 1500000000, AccessTime = 1500000000, ModTime = 1500000000\<rparr>,
       Data ''# widget'', Trailer], room = None\<rparr>)"
  by (simp add: tar_eval holed_repo_def holed_tree_def semver_eval)



lemma writeGitTreeTar_filter_links:
  "writeGitTreeTar (filter (\<lambda>e. entry_Type e \<noteq> ObjectCommit) tree) prefix modTime tw
     = writeGitTreeTar tree prefix modTime tw"
proof (induction tree prefix modTime tw rule: writeGitTreeTar.induct)
  case (1 prefix modTime tw)
  show ?case by simp
next
  case (2 entry rest prefix modTime tw)
  show ?case
  proof (cases "entry_Type entry")
    case ObjectCommit
    with 2(1) show ?thesis by simp
  next
    case ObjectTag
    with 2(6) show ?thesis by simp
  next
    case ObjectTree
    show ?thesis
    proof (cases "LookupTree (entry_Id entry)")
      case (Inl err)
      with ObjectTree 2(2)[OF ObjectTree refl refl Inl] show ?thesis
        by (simp add: Let_def)
    next
      case (Inr newTree)
      let ?sub = "writeGitTreeTar newTree (prefix @ entry_Name entry @ ''/'') modTime
        (snd (WriteHeader tw \<lparr>Name = prefix @ entry_Name entry @ ''/'', Mode = 493,
           Typeflag = TypeDir, Size = 0,
           ChangeTime = modTime, AccessTime = modTime, ModTime = modTime\<rparr>))"
      show ?thesis
      proof (cases "fst ?sub")
        case None
        then have s: "(None, snd ?sub) = ?sub" by (simp add: prod_eq_iff)
        from ObjectTree Inr None 2(4)[OF ObjectTree refl refl Inr s refl] show ?thesis
          by (simp add: Let_def case_prod_beta)
      next
        case (Some err)
        with ObjectTree Inr show ?thesis
          by (simp add: Let_def case_prod_beta)
      qed
    qed
  next
    case ObjectBlob
    show ?thesis
    proof (cases "LookupBlob (entry_Id entry)")
      case (Inl err)
      with ObjectBlob show ?thesis by simp
    next
      case (Inr blob)
      let ?w = "Write (snd (WriteHeader tw \<lparr>Name = prefix @ entry_Name entry,
           Mode = entry_Filemode entry, Typeflag = TypeReg, Size = int (length blob),
           ChangeTime = modTime, AccessTime = modTime, ModTime = modTime\<rparr>)) blob"
      show ?thesis
      proof (cases "fst ?w")
        case None
        then have s: "(None, snd ?w) = ?w" by (simp add: prod_eq_iff)
        from ObjectBlob Inr None 2(5)[OF ObjectBlob Inr refl s refl] show ?thesis
          by (simp add: Let_def case_prod_beta)
      next
        case (Some err)
        with ObjectBlob Inr show ?thesis
          by (simp add: Let_def case_prod_beta)
      qed
    qed
  qed
qed

lemma writeGitTreeTar_without_links:
  "writeGitTreeTar (without_links tree) prefix modTime tw
     = writeGitTreeTar tree prefix modTime tw"
proof (induction tree prefix modTime tw rule: writeGitTreeTar.induct)
  case (1 prefix modTime tw)
  show ?case by simp
next
  case (2 entry rest prefix modTime tw)
  show ?case
  proof (cases "entry_Type entry")
    case ObjectCommit
    with 2(1) show ?thesis by simp
  next
    case ObjectTag
    with 2(6) show ?thesis by simp
  next
    case ObjectTree
    show ?thesis
    proof (cases "LookupTree (entry_Id entry)")
      case (Inl err)
      with ObjectTree 2(2)[OF ObjectTree refl refl Inl] show ?thesis
        by (simp add: Let_def)
    next
      case (Inr newTree)
      let ?sub = "writeGitTreeTar newTree (prefix @ entry_Name entry @ ''/'') modTime
        (snd (WriteHeader tw \<lparr>Name = prefix @ entry_Name entry @ ''/'', Mode = 493,
           Typeflag = TypeDir, Size = 0,
           ChangeTime = modTime, AccessTime = modTime, ModTime = modTime\<rparr>))"
      note sub = 2(3)[OF ObjectTree refl refl Inr]
      show ?thesis
      proof (cases "fst ?sub")
        case None
        then have s: "(None, snd ?sub) = ?sub" by (simp add: prod_eq_iff)
        from ObjectTree Inr None sub 2(4)[OF ObjectTree refl refl Inr s refl] show ?thesis
          by (simp add: Let_def case_prod_beta)
      next
        case (Some err)
        with ObjectTree Inr sub show ?thesis
          by (simp add: Let_def case_prod_beta)
      qed
    qed
  next
    case ObjectBlob
    show ?thesis
    proof (cases "LookupBlob (entry_Id entry)")
      case (Inl err)
      with ObjectBlob show ?thesis by simp
    next
      case (Inr blob)
      let ?w = "Write (snd (WriteHeader tw \<lparr>Name = prefix @ entry_Name entry,
           Mode = entry_Filemode entry, Typeflag = TypeReg, Size = int (length blob),
           ChangeTime = modTime, AccessTime = modTime, ModTime = modTime\<rparr>)) blob"
      show ?thesis
      proof (cases "fst ?w")
        case None
        then have s: "(None, snd ?w) = ?w" by (simp add: prod_eq_iff)
        from ObjectBlob Inr None 2(5)[OF ObjectBlob Inr refl s refl] show ?thesis
          by (simp add: Let_def case_prod_beta)
      next
        case (Some err)
        with ObjectBlob Inr show ?thesis
          by (simp add: Let_def case_prod_beta)
      qed
    qed
  qed
qed

text \<open>
  C8. Entries of type commit (submodule links) leave no trace. For every tree, prefix and
  writer, \<open>writeGitTreeTar\<close> returns the same result and leaves the same output as on the
  tree without those entries, whatever object the links refer to; and the same again as
  on the snapshot from which the links are removed at every depth.
\<close>

theorem writeGitTreeTar_omits_links:
  "writeGitTreeTar (filter (\<lambda>e. entry_Type e \<noteq> ObjectCommit) tree) prefix modTime tw
     = writeGitTreeTar tree prefix modTime tw
   \<and> writeGitTreeTar (without_links tree) prefix modTime tw
     = writeGitTreeTar tree prefix modTime tw"
  by (simp only: writeGitTreeTar_filter_links writeGitTreeTar_without_links simp_thms)

text \<open>
  C8, witness: the example snapshot without its links \<open>vendor\<close> and \<open>bin/deps\<close>.
\<close>

theorem writeGitTreeTar_omits_links_witness:
  "without_links widget_tree =
     [TreeEntry ''main.tf'' ObjectBlob 33188 (BlobObject ''# widget''),
      TreeEntry ''bin'' ObjectTree 16384
        (TreeObject [TreeEntry ''run.sh'' ObjectBlob 33261 (BlobObject ''exit'')])]
   \<and> writeGitTreeTar
       [TreeEntry ''main.tf'' ObjectBlob 33188 (BlobObject ''# widget''),
        TreeEntry ''bin'' ObjectTree 16384
          (TreeObject [TreeEntry ''run.sh'' ObjectBlob 33261 (BlobObject ''exit'')])]
       [] 1500000000 \<lparr>written = [], room = None\<rparr>
     = writeGitTreeTar widget_tree [] 1500000000 \<lparr>written = [], room = None\<rparr>"
proof -
  have f: "without_links widget_tree =
     [TreeEntry ''main.tf'' ObjectBlob 33188 (BlobObject ''# widget''),
      TreeEntry ''bin'' ObjectTree 16384
        (TreeObject [TreeEntry ''run.sh'' ObjectBlob 33261 (BlobObject ''exit'')])]"
    by (simp add: widget_tree_def)
  from writeGitTreeTar_omits_links[of widget_tree "[]" 1500000000 "\<lparr>written = [], room = None\<rparr>",
      THEN conjunct2]
  show ?thesis by (simp only: f simp_thms)
qed

section \<open>The routes\<close>










end
